theory Spec2Isabelle
  imports Complex_Main "HOL-Library.Multiset"
begin

section \<open>Data model (src/types/agent.ts)\<close>

text \<open>
  The research agent threads one state object through a LangGraph state machine of five
  nodes. JavaScript numbers that carry a relevance score are modelled as reals (the code
  only subtracts and compares them; scores come from JSON, so there is no NaN), the retry
  counter as a natural number, strings as character lists.
\<close>

record SearchResult =
  title :: string
  url :: string
  content :: string
  score :: real
  timestamp :: "string option"

text \<open>AnalysisStep: the fields \<open>step\<close>, \<open>findings\<close>, \<open>confidence\<close> of the source.\<close>

record AnalysisStep =
  a_step :: string
  a_findings :: string
  a_confidence :: real

record MigrationFindings =
  summary :: string
  migrationSteps :: "string list"
  breakingChanges :: "string list"
  examples :: "string list"
  sources :: "string list"

datatype AgentStatus =
  Idle | ParsingQuery | Searching | FilteringResults | Analyzing | Synthesizing
  | Complete | Error

datatype message = HumanMessage string | AIMessage string

text \<open>
  AgentState: the channels of \<open>AgentStateAnnotation\<close>. A channel declared with
  \<open>T | undefined\<close> is an option; \<open>messages\<close>, \<open>status\<close> and \<open>searchAttempts\<close> have
  defaults and always hold a value. \<open>relevantResults\<close> is declared \<open>SearchResult[]\<close>,
  but the Filter node fills it with \<open>searchResults[idx]\<close> for indices that it takes from
  the reply of the LLM, so an entry can be \<open>undefined\<close>: the entries are options.
\<close>

record AgentState =
  query :: string
  enhancedQuery :: "string option"
  searchResults :: "SearchResult list option"
  relevantResults :: "SearchResult option list option"
  analysisSteps :: "AnalysisStep list option"
  findings :: "MigrationFindings option"
  messages :: "message list"
  status :: AgentStatus
  error :: "string option"
  searchAttempts :: nat

text \<open>
  \<open>Partial<AgentState>\<close>: the object a node returns. \<open>None\<close> is an absent key, which
  reads as \<open>undefined\<close> in JavaScript.
\<close>

record PartialState =
  p_query :: "string option"
  p_enhancedQuery :: "string option"
  p_searchResults :: "SearchResult list option"
  p_relevantResults :: "SearchResult option list option"
  p_analysisSteps :: "AnalysisStep list option"
  p_findings :: "MigrationFindings option"
  p_messages :: "message list option"
  p_status :: "AgentStatus option"
  p_error :: "string option"
  p_searchAttempts :: "nat option"

definition empty_partial :: PartialState where
  "empty_partial = \<lparr>p_query = None, p_enhancedQuery = None, p_searchResults = None,
     p_relevantResults = None, p_analysisSteps = None, p_findings = None,
     p_messages = None, p_status = None, p_error = None, p_searchAttempts = None\<rparr>"

text \<open>The object literal \<open>{status: "error", error: msg}\<close> that every node returns on failure.\<close>

definition error_partial :: "string \<Rightarrow> PartialState" where
  "error_partial msg = empty_partial\<lparr>p_status := Some Error, p_error := Some msg\<rparr>"

text \<open>
  The reducers of the annotation: \<open>messages\<close> concatenates, every other channel keeps the
  latest value written; a key absent from the update leaves its channel alone.
\<close>

definition or_keep :: "'a option \<Rightarrow> 'a option \<Rightarrow> 'a option" where
  "or_keep new old = (case new of None \<Rightarrow> old | Some v \<Rightarrow> Some v)"

definition merge_partial :: "AgentState \<Rightarrow> PartialState \<Rightarrow> AgentState" where
  "merge_partial s u =
     \<lparr>query = (case p_query u of None \<Rightarrow> query s | Some q \<Rightarrow> q),
      enhancedQuery = or_keep (p_enhancedQuery u) (enhancedQuery s),
      searchResults = or_keep (p_searchResults u) (searchResults s),
      relevantResults = or_keep (p_relevantResults u) (relevantResults s),
      analysisSteps = or_keep (p_analysisSteps u) (analysisSteps s),
      findings = or_keep (p_findings u) (findings s),
      messages = (case p_messages u of None \<Rightarrow> messages s | Some ms \<Rightarrow> messages s @ ms),
      status = (case p_status u of None \<Rightarrow> status s | Some st \<Rightarrow> st),
      error = or_keep (p_error u) (error s),
      searchAttempts = (case p_searchAttempts u of None \<Rightarrow> searchAttempts s | Some n \<Rightarrow> n)\<rparr>"

section \<open>External collaborators\<close>

text \<open>
  The prompt sent to the LLM: the template and the variables it is formatted with.
\<close>

datatype prompt =
  QUERY_ENHANCEMENT_PROMPT string
  | RELEVANCE_FILTER_PROMPT string string
  | DEEP_ANALYSIS_PROMPT string string
  | SYNTHESIS_PROMPT string nat string

text \<open>A raw record of the Tavily reply; every property may be missing.\<close>

record raw_result =
  r_title :: "string option"
  r_url :: "string option"
  r_content :: "string option"
  r_snippet :: "string option"
  r_score :: "real option"

text \<open>
  What \<open>searchTool.invoke\<close> followed by \<open>JSON.parse\<close> gives in \<open>executeSearch\<close>: the tool
  raises with a message, its reply is not JSON, or it is an array of records.
\<close>

datatype tool_outcome = ToolThrows string | InvalidJson | Parsed "raw_result list"

text \<open>
  A JSON value, as \<open>JSON.parse\<close> gives it on the relevance reply. The reply is untrusted
  text and the annotation \<open>number[]\<close> of the source checks nothing at run time, so the
  parsed value can be anything. \<open>JNumber x\<close> carries the number parsed; a literal beyond
  the range of a double parses to an infinity, which is represented by the value of the
  literal (it fails the range test of the Filter node either way).
\<close>

datatype json =
  JNull | JBool bool | JNumber real | JString string | JArray "json list"
  | JObject "(string \<times> json) list"

text \<open>
  What \<open>JSON.parse\<close> gives on the synthesis reply: a SyntaxError, \<open>null\<close> (reading a
  property of it raises a TypeError), or a value whose properties may be missing.
\<close>

record synthesis_json =
  j_summary :: "string option"
  j_migrationSteps :: "string list option"
  j_breakingChanges :: "string list option"
  j_examples :: "string list option"
  j_notes :: "string list option"

datatype parsed_synthesis = SynthesisSyntaxError | SynthesisNull | SynthesisValue synthesis_json

text \<open>
  The environment of a run. The collaborators may keep state of their own (a mock that
  answers differently on the second call), so each call takes the world \<open>'w\<close> and returns
  the next one. \<open>Inl msg\<close> is an exception carrying the message \<open>msg\<close>.
  \<^item> \<open>llm_invoke\<close> stands for \<open>createLLM()\<close>, the formatting of the prompt and
    \<open>llm.invoke\<close> together: in every node the three sit in the same \<open>try\<close> block. Its
    result is \<open>response.content.toString()\<close>.
  \<^item> \<open>tavily_invoke\<close> is \<open>searchTool.invoke\<close> followed by \<open>JSON.parse\<close>.
  \<^item> \<open>clock w i\<close> is the ISO time that \<open>new Date()\<close> reads while record \<open>i\<close> of a
    search reply is converted.
  \<^item> \<open>parse_indices\<close> and \<open>parse_synthesis\<close> are \<open>JSON.parse\<close> on the two replies
    that the nodes parse; they are functions of the text alone. \<open>parse_indices\<close> gives
    \<open>None\<close> when \<open>JSON.parse\<close> raises its SyntaxError.
  \<^item> \<open>string_to_number\<close> is \<open>Number(s)\<close>, the conversion of a string to a number that
    the language applies when a string is compared with a number; \<open>None\<close> is a result
    that is no finite number (\<open>NaN\<close> or an infinity).
\<close>

record 'w environment =
  llm_invoke :: "'w \<Rightarrow> prompt \<Rightarrow> (string + string) \<times> 'w"
  tavily_invoke :: "'w \<Rightarrow> string \<Rightarrow> tool_outcome \<times> 'w"
  clock :: "'w \<Rightarrow> nat \<Rightarrow> string"
  parse_indices :: "string \<Rightarrow> json option"
  string_to_number :: "string \<Rightarrow> real option"
  parse_synthesis :: "string \<Rightarrow> parsed_synthesis"

section \<open>String helpers\<close>

text \<open>
  \<open>String.prototype.trim\<close> removes white space at both ends. Characters are bytes here,
  so the white space is the ASCII one and the no-break space.
\<close>

definition is_space :: "char \<Rightarrow> bool" where
  "is_space c = (c \<in> {CHR '' '', CHR 0x09, CHR 0x0A, CHR 0x0B, CHR 0x0C, CHR 0x0D, CHR 0xA0})"

definition trim :: "string \<Rightarrow> string" where
  "trim s = rev (dropWhile is_space (rev (dropWhile is_space s)))"

definition digit_char :: "nat \<Rightarrow> char" where
  "digit_char d = char_of (48 + d)"

function string_of_nat :: "nat \<Rightarrow> string" where
  "string_of_nat n =
     (if n < 10 then [digit_char n] else string_of_nat (n div 10) @ [digit_char (n mod 10)])"
  by pat_completeness auto
termination
  by (relation "measure id") auto

fun join :: "string \<Rightarrow> string list \<Rightarrow> string" where
  "join sep [] = []"
| "join sep [x] = x"
| "join sep (x # y # ys) = x @ sep @ join sep (y # ys)"

text \<open>\<open>a || b\<close> on strings: the empty string and \<open>undefined\<close> are falsy.\<close>

definition truthy_or :: "string option \<Rightarrow> string \<Rightarrow> string" where
  "truthy_or a b = (case a of None \<Rightarrow> b | Some x \<Rightarrow> if x = [] then b else x)"

section \<open>The search tool (src/agent/tools/search.ts)\<close>

text \<open>\<open>result.score || 0.5\<close>: a missing score and the score 0 are both falsy.\<close>

definition score_or_default :: "real option \<Rightarrow> real" where
  "score_or_default sc = (case sc of None \<Rightarrow> 0.5 | Some x \<Rightarrow> if x = 0 then 0.5 else x)"

definition to_SearchResult :: "'w environment \<Rightarrow> 'w \<Rightarrow> nat \<Rightarrow> raw_result \<Rightarrow> SearchResult" where
  "to_SearchResult E w index result =
     \<lparr>title = truthy_or (r_title result) (''Result '' @ string_of_nat (index + 1)),
      url = truthy_or (r_url result) [],
      content = truthy_or (r_content result) (truthy_or (r_snippet result) []),
      score = score_or_default (r_score result),
      timestamp = Some (clock E w index)\<rparr>"

text \<open>
  \<open>executeSearch\<close>: every exception raised inside its \<open>try\<close> block, the
  "Invalid search results format" one included, is caught by its own \<open>catch\<close> and raised
  again with the prefix "Search failed: ".
\<close>

definition executeSearch :: "'w environment \<Rightarrow> 'w \<Rightarrow> string \<Rightarrow> (string + SearchResult list) \<times> 'w" where
  "executeSearch E w q =
     (case tavily_invoke E w q of
        (ToolThrows msg, w') \<Rightarrow> (Inl (''Search failed: '' @ msg), w')
      | (InvalidJson, w') \<Rightarrow> (Inl (''Search failed: '' @ ''Invalid search results format''), w')
      | (Parsed results, w') \<Rightarrow>
          (Inr (filter (\<lambda>result. content result \<noteq> [] \<and> length (content result) > 50)
                  (map (\<lambda>(index, result). to_SearchResult E w' index result)
                     (zip [0..<length results] results))), w'))"

definition validateSearchResults :: "SearchResult list \<Rightarrow> bool" where
  "validateSearchResults results =
     (if length results = 0 then False
      else list_ex (\<lambda>result. score result > 0.7 \<and> length (content result) > 200) results)"

section \<open>The nodes (src/agent/graph.ts)\<close>

definition parseQuery :: "'w environment \<Rightarrow> 'w \<Rightarrow> AgentState \<Rightarrow> PartialState \<times> 'w" where
  "parseQuery E w state =
     (case llm_invoke E w (QUERY_ENHANCEMENT_PROMPT (query state)) of
        (Inr response, w') \<Rightarrow>
          (let enhanced = trim response
           in (empty_partial\<lparr>p_enhancedQuery := Some enhanced, p_status := Some Searching,
                 p_messages := Some [HumanMessage (query state), AIMessage enhanced]\<rparr>, w'))
      | (Inl msg, w') \<Rightarrow> (error_partial (''Query parsing failed: '' @ msg), w'))"

text \<open>\<open>state.enhancedQuery || state.query\<close>, the text the Search node hands to the tool.\<close>

definition search_query :: "AgentState \<Rightarrow> string" where
  "search_query state = truthy_or (enhancedQuery state) (query state)"

definition search :: "'w environment \<Rightarrow> 'w \<Rightarrow> AgentState \<Rightarrow> PartialState \<times> 'w" where
  "search E w state =
     (let q = search_query state
      in case executeSearch E w q of
           (Inr results, w') \<Rightarrow>
             (if \<not> validateSearchResults results then
                (if searchAttempts state < 2 then
                   (empty_partial\<lparr>p_searchAttempts := Some (searchAttempts state + 1),
                      p_status := Some ParsingQuery,
                      p_enhancedQuery := Some (q @ '' official documentation breaking changes'')\<rparr>, w')
                 else (error_partial ''Could not find sufficient search results'', w'))
              else (empty_partial\<lparr>p_searchResults := Some results,
                      p_status := Some FilteringResults\<rparr>, w'))
         | (Inl msg, w') \<Rightarrow> (error_partial (''Search failed: '' @ msg), w'))"

text \<open>
  The text block of one result in the relevance prompt:
  \<open>[idx] title\nURL: url\nContent: content.substring(0, 300)...\<close>
\<close>

definition result_entry :: "nat \<Rightarrow> SearchResult \<Rightarrow> string" where
  "result_entry idx result =
     ''['' @ string_of_nat idx @ ''] '' @ title result @ [CHR 0x0A] @ ''URL: '' @ url result
       @ [CHR 0x0A] @ ''Content: '' @ take 300 (content result) @ ''...''"

definition results_text :: "SearchResult list \<Rightarrow> string" where
  "results_text results =
     join [CHR 0x0A, CHR 0x0A]
       (map (\<lambda>(idx, result). result_entry idx result) (zip [0..<length results] results))"

text \<open>
  \<open>Array.prototype.sort\<close> with the comparator \<open>(a, b) => b.score - a.score\<close>: a stable
  sort, highest score first. \<open>sort_key\<close> is the stable insertion sort of the library.
\<close>

definition sort_by_score_desc :: "SearchResult list \<Rightarrow> SearchResult list" where
  "sort_by_score_desc results = sort_key (\<lambda>result. - score result) results"

text \<open>
  The inner fallback sorts a fresh array of indices, not the results:
  \<open>searchResults.map((_, idx) => idx).sort((a, b) => results[b].score - results[a].score).slice(0, 5)\<close>
\<close>

definition top_indices :: "SearchResult list \<Rightarrow> json list" where
  "top_indices results =
     map (\<lambda>idx. JNumber (real idx))
       (take 5 (sort_key (\<lambda>idx. - score (results ! idx)) [0..<length results]))"

text \<open>
  The coercions of the language that \<open>idx >= 0 && idx < results.length\<close> and
  \<open>results[idx]\<close> apply to an element \<open>idx\<close> of the parsed array.

  Converting an object to a primitive calls its \<open>valueOf\<close> and \<open>toString\<close>. A
  parsed object that has a member named \<open>toString\<close> hides the inherited method behind a
  value that cannot be called, and the conversion raises a TypeError. The text of an array
  is the texts of its elements joined by commas (nothing for \<open>null\<close>), so the conversion
  of an array raises when that of an element does.
\<close>

fun raises_on_conversion :: "json \<Rightarrow> bool" where
  "raises_on_conversion (JObject members) = (''toString'' \<in> set (map fst members))"
| "raises_on_conversion (JArray elems) = list_ex raises_on_conversion elems"
| "raises_on_conversion idx = False"

text \<open>
  The number of the text of an array: the empty text (of \<open>[]\<close> and \<open>[null]\<close>) is 0, the
  text of a one-element array is that of its element, a text with a comma is no number.
\<close>

fun array_number :: "'w environment \<Rightarrow> json list \<Rightarrow> real option" where
  "array_number E [] = Some 0"
| "array_number E [JNull] = Some 0"
| "array_number E [JNumber x] = Some x"
| "array_number E [JString s] = string_to_number E s"
| "array_number E [JArray elems] = array_number E elems"
| "array_number E [JBool b] = None"
| "array_number E [JObject members] = None"
| "array_number E (a # b # rest) = None"

text \<open>\<open>ToNumber\<close>: \<open>None\<close> is \<open>NaN\<close>, for which every comparison is false.\<close>

fun to_number :: "'w environment \<Rightarrow> json \<Rightarrow> real option" where
  "to_number E JNull = Some 0"
| "to_number E (JBool b) = Some (if b then 1 else 0)"
| "to_number E (JNumber x) = Some x"
| "to_number E (JString s) = string_to_number E s"
| "to_number E (JArray elems) = array_number E elems"
| "to_number E (JObject members) = None"

text \<open>
  The property key of \<open>results[idx]\<close> is the text of \<open>idx\<close>. It names an element of the
  array when it is the decimal text of a natural number \<open>k\<close>, which is the case for a
  number that is a non-negative integer, for a string that is exactly such a text, and for
  a one-element array of either.
\<close>

definition number_index :: "real \<Rightarrow> nat option" where
  "number_index x = (if 0 \<le> x \<and> of_int \<lfloor>x\<rfloor> = x then Some (nat \<lfloor>x\<rfloor>) else None)"

definition digits_value :: "string \<Rightarrow> nat" where
  "digits_value s = foldl (\<lambda>n c. 10 * n + (of_char c - 48)) 0 s"

definition canonical_index :: "string \<Rightarrow> nat option" where
  "canonical_index s = (if string_of_nat (digits_value s) = s then Some (digits_value s) else None)"

fun array_index :: "json list \<Rightarrow> nat option" where
  "array_index [JNumber x] = number_index x"
| "array_index [JString s] = canonical_index s"
| "array_index [JArray elems] = array_index elems"
| "array_index elems = None"

fun property_index :: "json \<Rightarrow> nat option" where
  "property_index (JNumber x) = number_index x"
| "property_index (JString s) = canonical_index s"
| "property_index (JArray elems) = array_index elems"
| "property_index idx = None"

text \<open>\<open>idx >= 0 && idx < results.length\<close>\<close>

definition in_range :: "'w environment \<Rightarrow> SearchResult list \<Rightarrow> json \<Rightarrow> bool" where
  "in_range E results idx =
     (case to_number E idx of
        None \<Rightarrow> False
      | Some n \<Rightarrow> n \<ge> 0 \<and> n < real (length results))"

text \<open>
  \<open>results[idx]\<close>: the element at the index that the key names, \<open>undefined\<close> for a key
  that names none. (A key that passed the range test is the text of something numeric; the
  array has no property of such a name besides its elements.)
\<close>

definition array_get :: "SearchResult list \<Rightarrow> json \<Rightarrow> SearchResult option" where
  "array_get results idx =
     (case property_index idx of
        None \<Rightarrow> None
      | Some k \<Rightarrow> if k < length results then Some (results ! k) else None)"

text \<open>
  \<open>relevantIndices.filter((idx) => idx >= 0 && idx < results.length).map((idx) => results[idx])\<close>
  The result is \<open>None\<close> when the comparison raises a TypeError on some element.
\<close>

definition select_indices ::
  "'w environment \<Rightarrow> SearchResult list \<Rightarrow> json list \<Rightarrow> SearchResult option list option" where
  "select_indices E results relevantIndices =
     (if list_ex raises_on_conversion relevantIndices then None
      else Some (map (array_get results) (filter (in_range E results) relevantIndices)))"

text \<open>
  \<open>filterRelevance\<close> returns its update together with the state object it was given, as
  that object is after the call: the outer \<open>catch\<close> calls \<open>state.searchResults.sort(...)\<close>,
  and \<open>sort\<close> reorders the array it is called on. The outer \<open>catch\<close> is reached when the
  LLM call raises, when the parsed reply is not an array (it has no method \<open>filter\<close>) and
  when the comparison raises on an element of the array.
\<close>

definition filter_catch :: "AgentState \<Rightarrow> SearchResult list \<Rightarrow> PartialState \<times> AgentState" where
  "filter_catch state results =
     (let sorted = sort_by_score_desc results
      in (empty_partial\<lparr>p_relevantResults := Some (map Some (take 5 sorted)),
            p_status := Some Analyzing\<rparr>,
          state\<lparr>searchResults := Some sorted\<rparr>))"

definition filter_selected ::
  "'w environment \<Rightarrow> AgentState \<Rightarrow> SearchResult list \<Rightarrow> json list \<Rightarrow> PartialState \<times> AgentState" where
  "filter_selected E state results relevantIndices =
     (case select_indices E results relevantIndices of
        None \<Rightarrow> filter_catch state results
      | Some relevant \<Rightarrow>
          (empty_partial\<lparr>p_relevantResults := Some relevant, p_status := Some Analyzing\<rparr>,
           state))"

definition filterRelevance ::
  "'w environment \<Rightarrow> 'w \<Rightarrow> AgentState \<Rightarrow> (PartialState \<times> AgentState) \<times> 'w" where
  "filterRelevance E w state =
     (case searchResults state of
        None \<Rightarrow> ((error_partial ''No search results to filter'', state), w)
      | Some results \<Rightarrow>
          if length results = 0 then ((error_partial ''No search results to filter'', state), w)
          else
            (case llm_invoke E w (RELEVANCE_FILTER_PROMPT (query state) (results_text results)) of
               (Inl msg, w') \<Rightarrow> (filter_catch state results, w')
             | (Inr response, w') \<Rightarrow>
                 (case parse_indices E (trim response) of
                    None \<Rightarrow> (filter_selected E state results (top_indices results), w')
                  | Some (JArray relevantIndices) \<Rightarrow>
                      (filter_selected E state results relevantIndices, w')
                  | Some other \<Rightarrow> (filter_catch state results, w'))))"

text \<open>
  The \<open>for\<close> loop of \<open>analyzeResults\<close>; an exception leaves the loop at once. On an
  \<open>undefined\<close> entry the first statement of the body, which reads \<open>result.title\<close>,
  raises a TypeError.
\<close>

fun analyze_loop ::
  "'w environment \<Rightarrow> 'w \<Rightarrow> string \<Rightarrow> SearchResult option list \<Rightarrow> AnalysisStep list
     \<Rightarrow> (string + AnalysisStep list) \<times> 'w" where
  "analyze_loop E w q [] steps = (Inr steps, w)"
| "analyze_loop E w q (None # rest) steps =
     (Inl ''Cannot read properties of undefined (reading 'title')'', w)"
| "analyze_loop E w q (Some result # rest) steps =
     (case llm_invoke E w (DEEP_ANALYSIS_PROMPT q (content result)) of
        (Inl msg, w') \<Rightarrow> (Inl msg, w')
      | (Inr response, w') \<Rightarrow>
          analyze_loop E w' q rest
            (steps @ [\<lparr>a_step = ''Analysis of: '' @ title result,
                        a_findings = trim response,
                        a_confidence = score result\<rparr>]))"

definition analyzeResults :: "'w environment \<Rightarrow> 'w \<Rightarrow> AgentState \<Rightarrow> PartialState \<times> 'w" where
  "analyzeResults E w state =
     (case relevantResults state of
        None \<Rightarrow> (error_partial ''No relevant results to analyze'', w)
      | Some results \<Rightarrow>
          if length results = 0 then (error_partial ''No relevant results to analyze'', w)
          else
            (case analyze_loop E w (query state) (take 3 results) [] of
               (Inr steps, w') \<Rightarrow>
                 (empty_partial\<lparr>p_analysisSteps := Some steps, p_status := Some Synthesizing\<rparr>, w')
             | (Inl msg, w') \<Rightarrow> (error_partial (''Analysis failed: '' @ msg), w')))"

definition analyses_text :: "AnalysisStep list \<Rightarrow> string" where
  "analyses_text steps =
     join ([CHR 0x0A, CHR 0x0A] @ ''---'' @ [CHR 0x0A, CHR 0x0A])
       (map (\<lambda>st. a_step st @ '':'' @ [CHR 0x0A] @ a_findings st) steps)"

definition list_or :: "'a list option \<Rightarrow> 'a list \<Rightarrow> 'a list" where
  "list_or a b = (case a of None \<Rightarrow> b | Some xs \<Rightarrow> xs)"

definition make_findings :: "synthesis_json \<Rightarrow> string list \<Rightarrow> MigrationFindings" where
  "make_findings synthesis srcs =
     \<lparr>summary = truthy_or (j_summary synthesis) ''Migration guide synthesis'',
      migrationSteps = list_or (j_migrationSteps synthesis) [],
      breakingChanges = list_or (j_breakingChanges synthesis) [],
      examples = list_or (j_examples synthesis) (list_or (j_notes synthesis) []),
      sources = srcs\<rparr>"

text \<open>
  \<open>state.relevantResults ? state.relevantResults.slice(0, 5).map((r) => r.url) : []\<close>
  The result is \<open>None\<close> when one of the five entries is \<open>undefined\<close>: reading its
  \<open>url\<close> raises a TypeError. The statement comes after the reply has been parsed and
  before the first property of the parsed value is read.
\<close>

definition source_urls :: "SearchResult option list option \<Rightarrow> string list option" where
  "source_urls relevant =
     (case relevant of
        None \<Rightarrow> Some []
      | Some results \<Rightarrow> those (map (map_option url) (take 5 results)))"

definition synthesizeFindings :: "'w environment \<Rightarrow> 'w \<Rightarrow> AgentState \<Rightarrow> PartialState \<times> 'w" where
  "synthesizeFindings E w state =
     (case analysisSteps state of
        None \<Rightarrow> (error_partial ''No analyses to synthesize'', w)
      | Some steps \<Rightarrow>
          if length steps = 0 then (error_partial ''No analyses to synthesize'', w)
          else
            (case llm_invoke E w
                    (SYNTHESIS_PROMPT (query state) (length steps) (analyses_text steps)) of
               (Inl msg, w') \<Rightarrow> (error_partial (''Synthesis failed: '' @ msg), w')
             | (Inr response, w') \<Rightarrow>
                 (let synthesisJson = trim response
                  in case source_urls (relevantResults state) of
                       None \<Rightarrow>
                         (error_partial (''Synthesis failed: ''
                            @ ''Cannot read properties of undefined (reading 'url')''), w')
                     | Some srcs \<Rightarrow>
                         (case parse_synthesis E synthesisJson of
                            SynthesisSyntaxError \<Rightarrow>
                              (empty_partial\<lparr>p_findings := Some (make_findings
                                   \<lparr>j_summary = Some synthesisJson, j_migrationSteps = Some [],
                                    j_breakingChanges = Some [], j_examples = Some [],
                                    j_notes = None\<rparr> srcs),
                                 p_status := Some Complete\<rparr>, w')
                          | SynthesisNull \<Rightarrow>
                              (error_partial (''Synthesis failed: ''
                                 @ ''Cannot read properties of null (reading 'summary')''), w')
                          | SynthesisValue synthesis \<Rightarrow>
                              (empty_partial\<lparr>p_findings := Some (make_findings synthesis srcs),
                                 p_status := Some Complete\<rparr>, w')))))"

section \<open>The graph (buildResearchGraph) and its engine\<close>

datatype node = Query_parser | Search_node | Relevance_filter | Deep_analysis | Synthesis

text \<open>
  One node execution: the update the node returns, the state object it was handed as it
  is after the call (only \<open>filterRelevance\<close> ever changes it), and the next world.
\<close>

definition unchanged :: "AgentState \<Rightarrow> PartialState \<times> 'w \<Rightarrow> (PartialState \<times> AgentState) \<times> 'w" where
  "unchanged state r = ((fst r, state), snd r)"

fun run_node :: "'w environment \<Rightarrow> node \<Rightarrow> 'w \<Rightarrow> AgentState \<Rightarrow> (PartialState \<times> AgentState) \<times> 'w" where
  "run_node E Query_parser w state = unchanged state (parseQuery E w state)"
| "run_node E Search_node w state = unchanged state (search E w state)"
| "run_node E Relevance_filter w state = filterRelevance E w state"
| "run_node E Deep_analysis w state = unchanged state (analyzeResults E w state)"
| "run_node E Synthesis w state = unchanged state (synthesizeFindings E w state)"

text \<open>
  The edges: \<open>None\<close> is \<open>END\<close>. Each conditional edge reads the state after the node's
  update has been merged; \<open>synthesis\<close> has a plain edge to \<open>END\<close>.
\<close>

fun next_node :: "node \<Rightarrow> AgentState \<Rightarrow> node option" where
  "next_node Query_parser state = (if status state = Error then None else Some Search_node)"
| "next_node Search_node state =
     (if status state = Error then None
      else if status state = ParsingQuery then Some Query_parser
      else Some Relevance_filter)"
| "next_node Relevance_filter state = (if status state = Error then None else Some Deep_analysis)"
| "next_node Deep_analysis state = (if status state = Error then None else Some Synthesis)"
| "next_node Synthesis state = None"

record step =
  st_node :: node
  st_partial :: PartialState
  st_state :: AgentState

text \<open>
  The engine's loop: run the node, merge its update into the channels, follow the edge.
  The first argument counts the node executions still allowed; the library stops a run
  that needs more than its recursion limit (25 by default, and the graph is compiled with
  the default) with a GraphRecursionError, which is the result \<open>False\<close> here.
\<close>

fun drive :: "'w environment \<Rightarrow> nat \<Rightarrow> node \<Rightarrow> 'w \<Rightarrow> AgentState \<Rightarrow> step list \<times> bool \<times> 'w" where
  "drive E 0 n w state = ([], False, w)"
| "drive E (Suc limit) n w state =
     (case run_node E n w state of
        ((update, state_in), w') \<Rightarrow>
          (let state' = merge_partial state_in update;
               this = \<lparr>st_node = n, st_partial = update, st_state = state'\<rparr>
           in case next_node n state' of
                None \<Rightarrow> ([this], True, w')
              | Some n' \<Rightarrow>
                  (case drive E limit n' w' state' of
                     (rest, finished, w'') \<Rightarrow> (this # rest, finished, w''))))"

definition recursionLimit :: nat where
  "recursionLimit = 25"

definition run_graph :: "'w environment \<Rightarrow> 'w \<Rightarrow> AgentState \<Rightarrow> step list \<times> bool \<times> 'w" where
  "run_graph E w state = drive E recursionLimit Query_parser w state"

definition final_state :: "AgentState \<Rightarrow> step list \<Rightarrow> AgentState" where
  "final_state state trace = (if trace = [] then state else st_state (last trace))"

text \<open>\<open>graph.invoke\<close>: the values of the channels when the run ends.\<close>

definition graph_invoke :: "'w environment \<Rightarrow> 'w \<Rightarrow> AgentState \<Rightarrow> (string + AgentState) \<times> 'w" where
  "graph_invoke E w state =
     (case run_graph E w state of
        (trace, finished, w') \<Rightarrow>
          if finished then (Inr (final_state state trace), w')
          else (Inl ''Recursion limit of 25 reached without hitting a stop condition'', w'))"

text \<open>
  \<open>graph.stream\<close>: a compiled StateGraph streams in mode "updates", one chunk
  \<open>{ [nodeName]: update }\<close> per node execution, as the comment in
  \<open>executeResearchStreaming\<close> records. The second component is the exception, if any, that
  ends the iteration.
\<close>

definition graph_stream ::
  "'w environment \<Rightarrow> 'w \<Rightarrow> AgentState \<Rightarrow> ((node \<times> PartialState) list \<times> string option) \<times> 'w" where
  "graph_stream E w state =
     (case run_graph E w state of
        (trace, finished, w') \<Rightarrow>
          ((map (\<lambda>s. (st_node s, st_partial s)) trace,
            if finished then None
            else Some ''Recursion limit of 25 reached without hitting a stop condition''), w'))"

section \<open>The entry points (src/agent/index.ts)\<close>

text \<open>
  The channels once the input \<open>{query, status: "parsing_query", searchAttempts: 0}\<close> has
  been written: \<open>messages\<close> takes its default, the other channels hold nothing.
\<close>

definition initialState :: "string \<Rightarrow> AgentState" where
  "initialState q =
     \<lparr>query = q, enhancedQuery = None, searchResults = None, relevantResults = None,
      analysisSteps = None, findings = None, messages = [], status = ParsingQuery,
      error = None, searchAttempts = 0\<rparr>"

definition executeResearch :: "'w environment \<Rightarrow> 'w \<Rightarrow> string \<Rightarrow> (string + AgentState) \<times> 'w" where
  "executeResearch E w q =
     (case graph_invoke E w (initialState q) of
        (Inl msg, w') \<Rightarrow> (Inl msg, w')
      | (Inr finalState, w') \<Rightarrow>
          if status finalState = Error
          then (Inl (truthy_or (error finalState) ''Unknown error occurred''), w')
          else (Inr finalState, w'))"

text \<open>
  \<open>executeResearchStreaming\<close>: \<open>Object.values(state)[0]\<close> is the update of the chunk, cast
  to \<open>AgentState\<close>; it is always an object, hence truthy, so every chunk reaches
  \<open>onUpdate\<close> and becomes \<open>finalState\<close>. The result lists the arguments of the
  \<open>onUpdate\<close> calls in order.
\<close>

definition executeResearchStreaming ::
  "'w environment \<Rightarrow> 'w \<Rightarrow> string \<Rightarrow> ((string + PartialState) \<times> PartialState list) \<times> 'w" where
  "executeResearchStreaming E w q =
     (case graph_stream E w (initialState q) of
        ((chunks, raised), w') \<Rightarrow>
          (let updates = map snd chunks
           in case raised of
                Some msg \<Rightarrow> ((Inl msg, updates), w')
              | None \<Rightarrow>
                  if updates = [] then ((Inl ''Graph execution produced no final state'', updates), w')
                  else
                    (let finalState = last updates
                     in if p_status finalState = Some Error
                        then ((Inl (truthy_or (p_error finalState) ''Unknown error occurred''),
                               updates), w')
                        else ((Inr finalState, updates), w'))))"

text \<open>
  A full state seen as the JavaScript object it is: every channel that holds a value is a
  key. This is the type both entry points return values of.
\<close>

definition as_object :: "AgentState \<Rightarrow> PartialState" where
  "as_object s =
     \<lparr>p_query = Some (query s), p_enhancedQuery = enhancedQuery s,
      p_searchResults = searchResults s, p_relevantResults = relevantResults s,
      p_analysisSteps = analysisSteps s, p_findings = findings s,
      p_messages = Some (messages s), p_status = Some (status s), p_error = error s,
      p_searchAttempts = Some (searchAttempts s)\<rparr>"

section \<open>Auxiliary notions for the proofs\<close>

text \<open>The state of the channels after one execution of node \<open>n\<close> in state \<open>s\<close>.\<close>

definition after :: "'w environment \<Rightarrow> node \<Rightarrow> 'w \<Rightarrow> AgentState \<Rightarrow> AgentState" where
  "after E n w s = merge_partial (snd (fst (run_node E n w s))) (fst (fst (run_node E n w s)))"

text \<open>
  The largest number of node executions a run can still make when it is about to execute
  node \<open>n\<close> with \<open>searchAttempts = a\<close>: every retry costs one more \<open>query_parser\<close> and
  one more \<open>search\<close>.
\<close>

fun steps_left :: "node \<Rightarrow> nat \<Rightarrow> nat" where
  "steps_left Query_parser a = 2 * (2 - a) + 5"
| "steps_left Search_node a = 2 * (2 - a) + 4"
| "steps_left Relevance_filter a = 3"
| "steps_left Deep_analysis a = 2"
| "steps_left Synthesis a = 1"

text \<open>
  What a run of at most \<open>k\<close> node executions from node \<open>n\<close> amounts to: the nodes
  executed in order, whether the run reached \<open>END\<close>, and the state it ended in.
\<close>

definition outcome ::
  "'w environment \<Rightarrow> nat \<Rightarrow> node \<Rightarrow> 'w \<Rightarrow> AgentState \<Rightarrow> node list \<times> bool \<times> AgentState" where
  "outcome E k n w s =
     (map st_node (fst (drive E k n w s)), fst (snd (drive E k n w s)),
      final_state s (fst (drive E k n w s)))"

text \<open>A terminal state is settled: complete with findings, or in error without them.\<close>

definition settled :: "AgentState \<Rightarrow> bool" where
  "settled fs \<longleftrightarrow> status fs = Complete \<and> findings fs \<noteq> None
     \<or> status fs = Error \<and> findings fs = None \<and> error fs \<noteq> None"

text \<open>
  A step is consistent when its update already shows the status of the state it leads to,
  the error message of an error state and the findings of a complete state.
\<close>

definition consistent :: "step \<Rightarrow> bool" where
  "consistent stp \<longleftrightarrow>
     p_status (st_partial stp) = Some (status (st_state stp))
     \<and> (status (st_state stp) = Error \<longrightarrow>
          p_error (st_partial stp) = error (st_state stp) \<and> error (st_state stp) \<noteq> None)
     \<and> (status (st_state stp) = Complete \<longrightarrow>
          p_findings (st_partial stp) = findings (st_state stp))"

section \<open>Sample inputs\<close>

definition hit :: "string \<Rightarrow> real \<Rightarrow> nat \<Rightarrow> SearchResult" where
  "hit name sc len =
     \<lparr>title = name, url = ''https://example.org/'' @ name, content = replicate len CHR ''x'',
      score = sc, timestamp = None\<rparr>"

definition good_hit :: SearchResult where
  "good_hit = hit ''good'' 0.9 201"

definition short_hit :: SearchResult where
  "short_hit = hit ''short'' 0.9 200"

definition weak_hit :: SearchResult where
  "weak_hit = hit ''weak'' 0.7 300"


definition ten_hits :: "SearchResult list" where
  "ten_hits = map (\<lambda>i. hit (string_of_nat i) (real i / 10) 60) [0..<10]"

definition good_raw :: raw_result where
  "good_raw = \<lparr>r_title = Some ''Migration guide'', r_url = Some ''https://example.org/guide'',
     r_content = Some (replicate 201 CHR ''x''), r_snippet = None, r_score = Some 0.9\<rparr>"

text \<open>
  A mocked environment whose world counts the calls of the search tool: the tool finds
  nothing on its first \<open>failures\<close> calls and one good page after that; the LLM answers
  every prompt with the same text. Of \<open>Number(s)\<close> the samples need \<open>Number("0") = 0\<close>
  only.
\<close>

definition mock_env :: "nat \<Rightarrow> nat environment" where
  "mock_env failures =
     \<lparr>llm_invoke = (\<lambda>w p. (Inr ''reply'', w)),
      tavily_invoke = (\<lambda>w q. (if w < failures then Parsed [] else Parsed [good_raw], Suc w)),
      clock = (\<lambda>w i. ''2025-01-01T00:00:00.000Z''),
      parse_indices = (\<lambda>s. Some (JArray [JNumber 0])),
      string_to_number = (\<lambda>s. if s = ''0'' then Some 0 else None),
      parse_synthesis = (\<lambda>s. SynthesisSyntaxError)\<rparr>"

definition llm_down_env :: "nat environment" where
  "llm_down_env = (mock_env 0)\<lparr>llm_invoke := (\<lambda>w p. (Inl ''429 rate limit'', w))\<rparr>"




definition filtering_state :: "SearchResult list \<Rightarrow> AgentState" where
  "filtering_state results =
     (initialState ''X 1 to X 2'')\<lparr>enhancedQuery := Some ''reply'',
        searchResults := Some results, status := FilteringResults\<rparr>"

definition analyzing_state :: "SearchResult list \<Rightarrow> AgentState" where
  "analyzing_state results =
     (filtering_state results)\<lparr>relevantResults := Some (map Some results),
        status := Analyzing\<rparr>"

definition exhausted_state :: AgentState where
  "exhausted_state =
     (initialState ''X 1 to X 2'')\<lparr>enhancedQuery := Some ''reply'', status := Searching,
        searchAttempts := 2\<rparr>"

definition never_enough_env :: "nat environment" where
  "never_enough_env = (mock_env 0)\<lparr>tavily_invoke := (\<lambda>w q. (Parsed [], Suc w))\<rparr>"

definition searching_state :: AgentState where
  "searching_state =
     (initialState ''X 1 to X 2'')\<lparr>enhancedQuery := Some ''reply'', status := Searching\<rparr>"

definition retry_partial :: PartialState where
  "retry_partial = empty_partial\<lparr>p_searchAttempts := Some 1, p_status := Some ParsingQuery,
     p_enhancedQuery := Some ''reply official documentation breaking changes''\<rparr>"

section \<open>Reading updates and merged states\<close>

lemma sel_empty_partial [simp]:
  "p_query empty_partial = None" "p_enhancedQuery empty_partial = None"
  "p_searchResults empty_partial = None" "p_relevantResults empty_partial = None"
  "p_analysisSteps empty_partial = None" "p_findings empty_partial = None"
  "p_messages empty_partial = None" "p_status empty_partial = None"
  "p_error empty_partial = None" "p_searchAttempts empty_partial = None"
  by (simp_all add: empty_partial_def)

lemma sel_error_partial [simp]:
  "p_query (error_partial m) = None" "p_enhancedQuery (error_partial m) = None"
  "p_searchResults (error_partial m) = None" "p_relevantResults (error_partial m) = None"
  "p_analysisSteps (error_partial m) = None" "p_findings (error_partial m) = None"
  "p_messages (error_partial m) = None" "p_status (error_partial m) = Some Error"
  "p_error (error_partial m) = Some m" "p_searchAttempts (error_partial m) = None"
  by (simp_all add: error_partial_def)

lemma sel_merge_partial [simp]:
  "query (merge_partial s u) = (case p_query u of None \<Rightarrow> query s | Some q \<Rightarrow> q)"
  "enhancedQuery (merge_partial s u) = or_keep (p_enhancedQuery u) (enhancedQuery s)"
  "searchResults (merge_partial s u) = or_keep (p_searchResults u) (searchResults s)"
  "relevantResults (merge_partial s u) = or_keep (p_relevantResults u) (relevantResults s)"
  "analysisSteps (merge_partial s u) = or_keep (p_analysisSteps u) (analysisSteps s)"
  "findings (merge_partial s u) = or_keep (p_findings u) (findings s)"
  "messages (merge_partial s u) = (case p_messages u of None \<Rightarrow> messages s | Some ms \<Rightarrow> messages s @ ms)"
  "status (merge_partial s u) = (case p_status u of None \<Rightarrow> status s | Some st \<Rightarrow> st)"
  "error (merge_partial s u) = or_keep (p_error u) (error s)"
  "searchAttempts (merge_partial s u) = (case p_searchAttempts u of None \<Rightarrow> searchAttempts s | Some n \<Rightarrow> n)"
  by (simp_all add: merge_partial_def)

lemma or_keep_simps [simp]: "or_keep None old = old" "or_keep (Some v) old = Some v"
  by (simp_all add: or_keep_def)

lemma after_Query_parser:
  "searchAttempts (after E Query_parser w s) = searchAttempts s
   \<and> findings (after E Query_parser w s) = findings s
   \<and> (status (after E Query_parser w s) = Searching
      \<or> status (after E Query_parser w s) = Error \<and> error (after E Query_parser w s) \<noteq> None)"
  by (simp add: after_def unchanged_def parseQuery_def Let_def split: prod.splits sum.splits)

lemma after_Search_node:
  "findings (after E Search_node w s) = findings s
   \<and> (status (after E Search_node w s) = ParsingQuery \<and> searchAttempts s < 2
        \<and> searchAttempts (after E Search_node w s) = searchAttempts s + 1
      \<or> status (after E Search_node w s) = FilteringResults
        \<and> searchAttempts (after E Search_node w s) = searchAttempts s
      \<or> status (after E Search_node w s) = Error \<and> error (after E Search_node w s) \<noteq> None
        \<and> searchAttempts (after E Search_node w s) = searchAttempts s)"
  by (simp add: after_def unchanged_def search_def Let_def split: prod.splits sum.splits)

lemma after_Relevance_filter:
  "searchAttempts (after E Relevance_filter w s) = searchAttempts s
   \<and> findings (after E Relevance_filter w s) = findings s
   \<and> (status (after E Relevance_filter w s) = Analyzing
      \<or> status (after E Relevance_filter w s) = Error \<and> error (after E Relevance_filter w s) \<noteq> None)"
  by (simp add: after_def filterRelevance_def filter_catch_def filter_selected_def Let_def
      split: prod.splits sum.splits option.splits json.splits)

lemma after_Deep_analysis:
  "searchAttempts (after E Deep_analysis w s) = searchAttempts s
   \<and> findings (after E Deep_analysis w s) = findings s
   \<and> (status (after E Deep_analysis w s) = Synthesizing
      \<or> status (after E Deep_analysis w s) = Error \<and> error (after E Deep_analysis w s) \<noteq> None)"
  by (simp add: after_def unchanged_def analyzeResults_def Let_def
      split: prod.splits sum.splits option.splits)

lemma after_Synthesis:
  "searchAttempts (after E Synthesis w s) = searchAttempts s
   \<and> (status (after E Synthesis w s) = Complete \<and> findings (after E Synthesis w s) \<noteq> None
      \<or> status (after E Synthesis w s) = Error \<and> error (after E Synthesis w s) \<noteq> None
        \<and> findings (after E Synthesis w s) = findings s)"
  by (simp add: after_def unchanged_def synthesizeFindings_def Let_def
      split: prod.splits sum.splits option.splits parsed_synthesis.splits)

lemma drive_Suc:
  "drive E (Suc k) n w s =
     (let s' = after E n w s; w' = snd (run_node E n w s);
          this = \<lparr>st_node = n, st_partial = fst (fst (run_node E n w s)), st_state = s'\<rparr>
      in case next_node n s' of
           None \<Rightarrow> ([this], True, w')
         | Some n' \<Rightarrow> (this # fst (drive E k n' w' s'), fst (snd (drive E k n' w' s')),
                         snd (snd (drive E k n' w' s'))))"
  by (simp add: after_def Let_def split: prod.splits option.splits)

section \<open>Every run ends within nine node executions\<close>

lemma steps_left_pos: "0 < steps_left n a"
  by (cases n) simp_all

lemma next_node_decreases:
  assumes "next_node n (after E n w s) = Some n'"
  shows "steps_left n' (searchAttempts (after E n w s)) < steps_left n (searchAttempts s)"
proof (cases n)
  case Query_parser
  with assms after_Query_parser [of E w s] show ?thesis by (auto split: if_splits)
next
  case Search_node
  with assms after_Search_node [of E w s] show ?thesis by (auto split: if_splits)
next
  case Relevance_filter
  with assms after_Relevance_filter [of E w s] show ?thesis by (auto split: if_splits)
next
  case Deep_analysis
  with assms after_Deep_analysis [of E w s] show ?thesis by (auto split: if_splits)
next
  case Synthesis
  with assms show ?thesis by simp
qed

lemma drive_bounded:
  "steps_left n (searchAttempts s) \<le> k \<Longrightarrow>
     fst (snd (drive E k n w s)) \<and> length (fst (drive E k n w s)) \<le> steps_left n (searchAttempts s)
     \<and> fst (drive E k n w s) \<noteq> []"
proof (induction k arbitrary: n w s)
  case 0
  with steps_left_pos [of n "searchAttempts s"] show ?case by simp
next
  case (Suc k)
  show ?case
  proof (cases "next_node n (after E n w s)")
    case None
    then show ?thesis using steps_left_pos [of n "searchAttempts s"]
      by (simp add: drive_Suc Let_def del: drive.simps)
  next
    case (Some n')
    from next_node_decreases [OF Some] Suc.prems
    have le: "steps_left n' (searchAttempts (after E n w s)) \<le> k" by simp
    from Suc.IH [OF le, of "snd (run_node E n w s)"] next_node_decreases [OF Some] Some
    show ?thesis
      by (simp add: drive_Suc Let_def del: drive.simps)
  qed
qed

text \<open>
  C3. The claim is that a run never takes more than 7 node executions. The graph allows two
  retries, and each retry runs \<open>query_parser\<close> and \<open>search\<close> once more, so the bound
  of the code is 3 + 3 + 3 = 9: every run from the initial state ends without reaching the
  recursion limit, after at most 9 node executions.
\<close>

theorem run_graph_at_most_nine:
  "fst (snd (run_graph E w (initialState q))) \<and> length (fst (run_graph E w (initialState q))) \<le> 9"
  using drive_bounded [of Query_parser "initialState q" recursionLimit E w]
  by (simp add: run_graph_def initialState_def recursionLimit_def)

theorem run_graph_at_most_nine_witness:
  "fst (snd (run_graph (mock_env 2) 0 (initialState ''X 1 to X 2'')))
   \<and> length (fst (run_graph (mock_env 2) 0 (initialState ''X 1 to X 2''))) \<le> 9"
  using run_graph_at_most_nine [of "mock_env 2" 0 "''X 1 to X 2''"] by simp

text \<open>
  A search tool that finds nothing twice and a good page on the third call gives a run of
  nine node executions, three of them after the last search.
\<close>

theorem run_graph_seven_counterexample:
  "map st_node (fst (run_graph (mock_env 2) 0 (initialState ''X 1 to X 2'')))
     = [Query_parser, Search_node, Query_parser, Search_node, Query_parser, Search_node,
        Relevance_filter, Deep_analysis, Synthesis]
   \<and> \<not> length (fst (run_graph (mock_env 2) 0 (initialState ''X 1 to X 2''))) \<le> 7"
  by code_simp

section \<open>Search validation and the exhausted retry budget\<close>

text \<open>
  C7. The validation of the Search node accepts a sequence of hits exactly when it holds a
  hit with score above 0.7 and content longer than 200 characters; the empty sequence is
  rejected.
\<close>

theorem validateSearchResults_accepts_iff:
  "(validateSearchResults results \<longleftrightarrow>
      (\<exists>result \<in> set results. score result > 0.7 \<and> length (content result) > 200))
   \<and> \<not> validateSearchResults []"
  by (auto simp: validateSearchResults_def list_ex_iff)

theorem validateSearchResults_accepts_iff_witness:
  "validateSearchResults [weak_hit, good_hit] \<and> \<not> validateSearchResults [short_hit, weak_hit]"
  using validateSearchResults_accepts_iff [of "[weak_hit, good_hit]"]
    validateSearchResults_accepts_iff [of "[short_hit, weak_hit]"]
  by (simp add: good_hit_def short_hit_def weak_hit_def hit_def)

text \<open>
  C9. The claim is that the failure message of the exhausted Search node is
  "insufficient search results". The node does end in the error status when validation fails
  with \<open>searchAttempts\<close> at 2 or more, and the message it stores is
  "Could not find sufficient search results".
\<close>

theorem search_retries_exhausted:
  assumes "executeSearch E w (search_query state) = (Inr results, w')"
    and "\<not> validateSearchResults results"
    and "searchAttempts state \<ge> 2"
  shows "p_status (fst (search E w state)) = Some Error
       \<and> p_error (fst (search E w state)) = Some ''Could not find sufficient search results''
       \<and> fst (search E w state) = error_partial ''Could not find sufficient search results''"
  using assms by (simp add: search_def)

theorem search_retries_exhausted_witness:
  "executeSearch (mock_env 3) 0 (search_query exhausted_state) = (Inr [], 1)
   \<and> \<not> validateSearchResults [] \<and> searchAttempts exhausted_state \<ge> 2
   \<and> p_status (fst (search (mock_env 3) 0 exhausted_state)) = Some Error
   \<and> p_error (fst (search (mock_env 3) 0 exhausted_state))
       = Some ''Could not find sufficient search results''"
proof -
  have h1: "executeSearch (mock_env 3) 0 (search_query exhausted_state) = (Inr [], 1)"
    by code_simp
  have h2: "\<not> validateSearchResults []" by (simp add: validateSearchResults_def)
  have h3: "searchAttempts exhausted_state \<ge> 2" by (simp add: exhausted_state_def)
  from search_retries_exhausted [OF h1 h2 h3] h1 h2 h3 show ?thesis by simp
qed

theorem search_retries_exhausted_counterexample:
  "executeSearch (mock_env 3) 0 (search_query exhausted_state) = (Inr [], 1)
   \<and> \<not> validateSearchResults [] \<and> searchAttempts exhausted_state \<ge> 2
   \<and> p_error (fst (search (mock_env 3) 0 exhausted_state)) \<noteq> Some ''insufficient search results''"
  by code_simp

section \<open>The Filter node\<close>



lemma number_index_of_nat: "number_index (real k) = Some k"
  by (simp add: number_index_def)



















section \<open>The Analyze node\<close>

lemma analyze_loop_steps:
  "analyze_loop E w q (map Some results) acc = (Inr steps, w') \<Longrightarrow>
     map a_confidence steps = map a_confidence acc @ map score results
     \<and> map a_step steps = map a_step acc @ map (\<lambda>r. ''Analysis of: '' @ title r) results"
proof (induction results arbitrary: w acc)
  case Nil
  then show ?case by simp
next
  case (Cons r rest)
  then show ?case
    by (auto split: prod.splits sum.splits)
qed

lemma analyze_loop_returns:
  assumes "\<forall>w q c. \<exists>response w'. llm_invoke E w (DEEP_ANALYSIS_PROMPT q c) = (Inr response, w')"
  shows "\<exists>steps w'. analyze_loop E w q (map Some results) acc = (Inr steps, w')"
proof (induction results arbitrary: w acc)
  case Nil
  then show ?case by simp
next
  case (Cons r rest)
  from assms obtain response w1
    where "llm_invoke E w (DEEP_ANALYSIS_PROMPT q (content r)) = (Inr response, w1)" by blast
  with Cons.IH show ?case by simp
qed

lemma analyzeResults_steps:
  assumes "relevantResults state = Some (map Some results)" and "results \<noteq> []"
    and "p_analysisSteps (fst (analyzeResults E w state)) = Some steps"
  shows "length steps = min 3 (length results)
       \<and> map a_confidence steps = map score (take 3 results)
       \<and> map a_step steps = map (\<lambda>r. ''Analysis of: '' @ title r) (take 3 results)
       \<and> p_status (fst (analyzeResults E w state)) = Some Synthesizing"
proof (cases "analyze_loop E w (query state) (map Some (take 3 results)) []")
  case (Pair r w')
  show ?thesis
  proof (cases r)
    case (Inl msg)
    with Pair assms show ?thesis by (simp add: analyzeResults_def take_map)
  next
    case (Inr steps')
    with Pair assms have eq: "steps' = steps" by (simp add: analyzeResults_def take_map)
    from Pair Inr eq
    have run: "analyze_loop E w (query state) (map Some (take 3 results)) [] = (Inr steps, w')"
      by simp
    from analyze_loop_steps [OF run]
    have conf: "map a_confidence steps = map score (take 3 results)"
      and names: "map a_step steps = map (\<lambda>r. ''Analysis of: '' @ title r) (take 3 results)"
      by simp_all
    from conf have "length (map a_confidence steps) = length (map score (take 3 results))"
      by simp
    then have len: "length steps = min 3 (length results)" by (simp add: min.commute)
    from assms(1,2) run have "p_status (fst (analyzeResults E w state)) = Some Synthesizing"
      by (simp add: analyzeResults_def take_map)
    with conf names len show ?thesis by simp
  qed
qed

lemma analyzeResults_returns:
  assumes "relevantResults state = Some (map Some results)" and "results \<noteq> []"
    and "\<forall>w q c. \<exists>response w'. llm_invoke E w (DEEP_ANALYSIS_PROMPT q c) = (Inr response, w')"
  shows "\<exists>steps. p_analysisSteps (fst (analyzeResults E w state)) = Some steps"
proof -
  from analyze_loop_returns [OF assms(3)] obtain steps w'
    where "analyze_loop E w (query state) (map Some (take 3 results)) [] = (Inr steps, w')"
    by blast
  with assms(1,2) show ?thesis by (simp add: analyzeResults_def take_map)
qed

text \<open>
  C8. For non-empty \<open>relevantResults\<close> of any length (a sequence of hits, \<open>map Some results\<close>),
  and an LLM that answers the calls of the node, the Analyze node produces exactly
  \<open>min 3 (length relevantResults)\<close> analysis steps, one for each of the first three hits in
  their order, each with the score of its hit as confidence and the title of its hit in its
  name; ten hits give three steps. Whatever the LLM does, the node never returns another
  number of steps or other confidences: it returns these steps, or no steps and the error
  update of its \<open>catch\<close> block.
\<close>

theorem analyzeResults_first_three:
  assumes "relevantResults state = Some (map Some results)" and "results \<noteq> []"
  shows "((\<forall>w q c. \<exists>response w'. llm_invoke E w (DEEP_ANALYSIS_PROMPT q c) = (Inr response, w'))
          \<longrightarrow> (\<exists>steps. p_analysisSteps (fst (analyzeResults E w state)) = Some steps
                 \<and> length steps = min 3 (length results)
                 \<and> map a_confidence steps = map score (take 3 results)
                 \<and> map a_step steps = map (\<lambda>r. ''Analysis of: '' @ title r) (take 3 results)
                 \<and> p_status (fst (analyzeResults E w state)) = Some Synthesizing))
       \<and> (\<forall>steps. p_analysisSteps (fst (analyzeResults E w state)) = Some steps
            \<longrightarrow> length steps = min 3 (length results)
              \<and> map a_confidence steps = map score (take 3 results)
              \<and> map a_step steps = map (\<lambda>r. ''Analysis of: '' @ title r) (take 3 results))
       \<and> (p_analysisSteps (fst (analyzeResults E w state)) = None
            \<longrightarrow> (\<exists>msg. fst (analyzeResults E w state) = error_partial (''Analysis failed: '' @ msg)))"
proof (intro conjI impI allI)
  assume "\<forall>w q c. \<exists>response w'. llm_invoke E w (DEEP_ANALYSIS_PROMPT q c) = (Inr response, w')"
  from analyzeResults_returns [OF assms this] obtain steps
    where "p_analysisSteps (fst (analyzeResults E w state)) = Some steps" ..
  with analyzeResults_steps [OF assms this]
  show "\<exists>steps. p_analysisSteps (fst (analyzeResults E w state)) = Some steps
                 \<and> length steps = min 3 (length results)
                 \<and> map a_confidence steps = map score (take 3 results)
                 \<and> map a_step steps = map (\<lambda>r. ''Analysis of: '' @ title r) (take 3 results)
                 \<and> p_status (fst (analyzeResults E w state)) = Some Synthesizing"
    by blast
next
  fix steps
  assume "p_analysisSteps (fst (analyzeResults E w state)) = Some steps"
  from analyzeResults_steps [OF assms this]
  show "length steps = min 3 (length results)"
    and "map a_confidence steps = map score (take 3 results)"
    and "map a_step steps = map (\<lambda>r. ''Analysis of: '' @ title r) (take 3 results)"
    by simp_all
next
  assume "p_analysisSteps (fst (analyzeResults E w state)) = None"
  with assms show "\<exists>msg. fst (analyzeResults E w state) = error_partial (''Analysis failed: '' @ msg)"
    by (auto simp: analyzeResults_def split: prod.splits sum.splits)
qed

theorem analyzeResults_first_three_witness:
  "relevantResults (analyzing_state ten_hits) = Some (map Some ten_hits) \<and> length ten_hits = 10
   \<and> (\<exists>steps. p_analysisSteps (fst (analyzeResults (mock_env 0) 0 (analyzing_state ten_hits)))
                 = Some steps
         \<and> length steps = 3
         \<and> map a_confidence steps = map score (take 3 ten_hits))"
proof -
  have h1: "relevantResults (analyzing_state ten_hits) = Some (map Some ten_hits)"
    by (simp add: analyzing_state_def)
  have len: "length ten_hits = 10" by (simp add: ten_hits_def)
  then have h2: "ten_hits \<noteq> []" by auto
  have h3: "\<forall>w q c. \<exists>response w'.
      llm_invoke (mock_env 0) w (DEEP_ANALYSIS_PROMPT q c) = (Inr response, w')"
    by (simp add: mock_env_def)
  from analyzeResults_first_three [OF h1 h2, of "mock_env 0" 0] h3 h1 len show ?thesis by auto
qed

section \<open>The Filter node and the state it is given\<close>

text \<open>
  C2. The claim is that no node changes the state it receives, and that \<open>searchResults\<close> of
  the incoming state is the same sequence after the Filter node, its fallback path included.
  The outer \<open>catch\<close> of the Filter node sorts the array of the incoming state in place:
  with an LLM that raises, the incoming \<open>[weak_hit, good_hit]\<close> is
  \<open>[good_hit, weak_hit]\<close> after the call.
\<close>

theorem filterRelevance_catch_sorts_input:
  "searchResults (filtering_state [weak_hit, good_hit]) = Some [weak_hit, good_hit]
   \<and> searchResults (snd (fst (filterRelevance llm_down_env 0 (filtering_state [weak_hit, good_hit]))))
       = Some [good_hit, weak_hit]
   \<and> snd (fst (filterRelevance llm_down_env 0 (filtering_state [weak_hit, good_hit])))
       \<noteq> filtering_state [weak_hit, good_hit]"
  by code_simp

section \<open>The retry counter\<close>

lemma after_attempts_le:
  "searchAttempts s \<le> 2 \<Longrightarrow> searchAttempts (after E n w s) \<le> 2"
proof (cases n)
  case Query_parser
  then show "searchAttempts s \<le> 2 \<Longrightarrow> ?thesis" using after_Query_parser [of E w s] by simp
next
  case Search_node
  then show "searchAttempts s \<le> 2 \<Longrightarrow> ?thesis" using after_Search_node [of E w s] by auto
next
  case Relevance_filter
  then show "searchAttempts s \<le> 2 \<Longrightarrow> ?thesis" using after_Relevance_filter [of E w s] by simp
next
  case Deep_analysis
  then show "searchAttempts s \<le> 2 \<Longrightarrow> ?thesis" using after_Deep_analysis [of E w s] by simp
next
  case Synthesis
  then show "searchAttempts s \<le> 2 \<Longrightarrow> ?thesis" using after_Synthesis [of E w s] by simp
qed

lemma drive_attempts_le:
  "searchAttempts s \<le> 2 \<Longrightarrow>
     \<forall>stp \<in> set (fst (drive E k n w s)). searchAttempts (st_state stp) \<le> 2"
proof (induction k arbitrary: n w s)
  case 0
  then show ?case by simp
next
  case (Suc k)
  from after_attempts_le [OF Suc.prems] have le: "searchAttempts (after E n w s) \<le> 2" .
  show ?case
  proof (cases "next_node n (after E n w s)")
    case None
    with le show ?thesis by (simp add: drive_Suc Let_def del: drive.simps)
  next
    case (Some n')
    with le Suc.IH [OF le, of n' "snd (run_node E n w s)"] show ?thesis
      by (simp add: drive_Suc Let_def del: drive.simps)
  qed
qed

lemma final_state_Cons: "final_state s (stp # rest) = final_state (st_state stp) rest"
  by (simp add: final_state_def)

lemma outcome_Suc:
  "outcome E (Suc k) n w s =
     (case next_node n (after E n w s) of
        None \<Rightarrow> ([n], True, after E n w s)
      | Some n' \<Rightarrow>
          (case outcome E k n' (snd (run_node E n w s)) (after E n w s) of
             (ns, fin, fs) \<Rightarrow> (n # ns, fin, fs)))"
  unfolding outcome_def
  by (subst (1 2 3) drive_Suc)
    (simp add: Let_def final_state_Cons del: drive.simps split: option.splits, simp add: final_state_def)

lemma after_parse_answered:
  assumes "\<forall>w q. \<exists>response w'. llm_invoke E w (QUERY_ENHANCEMENT_PROMPT q) = (Inr response, w')"
  shows "status (after E Query_parser w s) = Searching
       \<and> searchAttempts (after E Query_parser w s) = searchAttempts s"
proof -
  from assms obtain response w'
    where "llm_invoke E w (QUERY_ENHANCEMENT_PROMPT (query s)) = (Inr response, w')"
    by blast
  then show ?thesis by (simp add: after_def unchanged_def parseQuery_def Let_def)
qed

lemma after_search_insufficient:
  assumes "\<forall>w q. \<exists>results w'. executeSearch E w q = (Inr results, w')
             \<and> \<not> validateSearchResults results"
  shows "status (after E Search_node w s) = (if searchAttempts s < 2 then ParsingQuery else Error)
       \<and> searchAttempts (after E Search_node w s)
           = (if searchAttempts s < 2 then searchAttempts s + 1 else searchAttempts s)"
proof -
  from assms obtain results w'
    where "executeSearch E w (search_query s) = (Inr results, w')"
      and "\<not> validateSearchResults results"
    by blast
  then show ?thesis by (simp add: after_def unchanged_def search_def Let_def)
qed

lemma exhausted_outcome:
  assumes ins: "\<forall>w q. \<exists>results w'. executeSearch E w q = (Inr results, w')
             \<and> \<not> validateSearchResults results"
    and llm: "\<forall>w q. \<exists>response w'. llm_invoke E w (QUERY_ENHANCEMENT_PROMPT q) = (Inr response, w')"
    and zero: "searchAttempts s = 0"
  shows "\<exists>fs. outcome E (Suc (Suc (Suc (Suc (Suc (Suc k)))))) Query_parser w s
           = ([Query_parser, Search_node, Query_parser, Search_node, Query_parser, Search_node],
              True, fs)
         \<and> status fs = Error \<and> searchAttempts fs = 2"
  using zero
  by (simp add: outcome_Suc after_parse_answered [OF llm] after_search_insufficient [OF ins])


lemma run_graph_outcome:
  "outcome E recursionLimit Query_parser w s
     = (map st_node (fst (run_graph E w s)), fst (snd (run_graph E w s)),
        final_state s (fst (run_graph E w s)))"
  by (simp add: outcome_def run_graph_def)

lemma insufficient_ends_in_error:
  assumes ins: "\<forall>w q. \<exists>results w'. executeSearch E w q = (Inr results, w')
             \<and> \<not> validateSearchResults results"
  shows "n = Query_parser \<or> n = Search_node \<Longrightarrow> searchAttempts s \<le> 2 \<Longrightarrow>
     steps_left n (searchAttempts s) \<le> k \<Longrightarrow>
     status (snd (snd (outcome E k n w s))) = Error
     \<and> length (filter (\<lambda>m. m = Search_node) (fst (outcome E k n w s))) \<le> 3 - searchAttempts s"
proof (induction k arbitrary: n w s)
  case 0
  with steps_left_pos [of n "searchAttempts s"] show ?case by simp
next
  case (Suc k)
  let ?s' = "after E n w s"
  let ?w' = "snd (run_node E n w s)"
  from Suc.prems(1) show ?case
  proof
    assume n: "n = Query_parser"
    from after_Query_parser [of E w s]
    have att: "searchAttempts (after E Query_parser w s) = searchAttempts s"
      and st: "status (after E Query_parser w s) = Searching
        \<or> status (after E Query_parser w s) = Error" by auto
    from st show ?thesis
    proof
      assume run: "status (after E Query_parser w s) = Searching"
      from Suc.prems(3) n att have le: "steps_left Search_node (searchAttempts (after E Query_parser w s)) \<le> k"
        by simp
      from Suc.IH [of Search_node "after E Query_parser w s" "snd (run_node E Query_parser w s)"]
        le att Suc.prems(2) run n
      show ?thesis by (auto simp: outcome_Suc split: prod.splits)
    next
      assume "status (after E Query_parser w s) = Error"
      with n show ?thesis by (simp add: outcome_Suc)
    qed
  next
    assume n: "n = Search_node"
    note a = after_search_insufficient [OF ins, of w s]
    show ?thesis
    proof (cases "searchAttempts s < 2")
      case True
      with a have st: "status (after E Search_node w s) = ParsingQuery"
        and att: "searchAttempts (after E Search_node w s) = searchAttempts s + 1" by simp_all
      from Suc.prems(3) n att True
      have le: "steps_left Query_parser (searchAttempts (after E Search_node w s)) \<le> k"
        by simp
      from Suc.IH [of Query_parser "after E Search_node w s" "snd (run_node E Search_node w s)"]
        le att True st n
      show ?thesis by (auto simp: outcome_Suc split: prod.splits)
    next
      case False
      with a have "status (after E Search_node w s) = Error" by simp
      with n False Suc.prems(2) show ?thesis by (simp add: outcome_Suc)
    qed
  qed
qed


lemma final_state_cases: "final_state s tr = s \<or> final_state s tr \<in> st_state ` set tr"
  by (auto simp: final_state_def)

text \<open>
  C4. \<open>searchAttempts\<close> is at most 2 in the initial state and in the state after every
  node execution of a run. When the search always returns results that fail validation, the
  run ends in the error status with \<open>searchAttempts\<close> at most 2 after at most three
  executions of the Search node; and when the LLM answers the query-enhancement prompts, so
  that no run stops in \<open>query_parser\<close>, the run executes \<open>query_parser\<close> and \<open>search\<close>
  three times each and ends with \<open>searchAttempts\<close> equal to 2.
\<close>

theorem searchAttempts_at_most_two:
  "searchAttempts (initialState q) \<le> 2
   \<and> (\<forall>stp \<in> set (fst (run_graph E w (initialState q))). searchAttempts (st_state stp) \<le> 2)
   \<and> ((\<forall>w q. \<exists>results w'. executeSearch E w q = (Inr results, w')
                  \<and> \<not> validateSearchResults results)
      \<longrightarrow> fst (snd (run_graph E w (initialState q)))
          \<and> status (final_state (initialState q) (fst (run_graph E w (initialState q)))) = Error
          \<and> searchAttempts (final_state (initialState q) (fst (run_graph E w (initialState q)))) \<le> 2
          \<and> length (filter (\<lambda>n. n = Search_node)
                (map st_node (fst (run_graph E w (initialState q))))) \<le> 3
          \<and> ((\<forall>w q. \<exists>response w'.
                  llm_invoke E w (QUERY_ENHANCEMENT_PROMPT q) = (Inr response, w'))
             \<longrightarrow> map st_node (fst (run_graph E w (initialState q)))
                   = [Query_parser, Search_node, Query_parser, Search_node, Query_parser,
                      Search_node]
                 \<and> length (filter (\<lambda>n. n = Search_node)
                       (map st_node (fst (run_graph E w (initialState q))))) = 3
                 \<and> searchAttempts
                       (final_state (initialState q) (fst (run_graph E w (initialState q)))) = 2))"
proof (intro conjI impI)
  let ?tr = "fst (run_graph E w (initialState q))"
  let ?fs = "final_state (initialState q) ?tr"
  show init: "searchAttempts (initialState q) \<le> 2" by (simp add: initialState_def)
  then show inv: "\<forall>stp \<in> set ?tr. searchAttempts (st_state stp) \<le> 2"
    unfolding run_graph_def by (rule drive_attempts_le)
  from drive_bounded [of Query_parser "initialState q" recursionLimit E w]
  show "fst (snd (run_graph E w (initialState q)))"
    by (simp add: run_graph_def initialState_def recursionLimit_def)
  from final_state_cases [of "initialState q" ?tr] init inv
  show "searchAttempts ?fs \<le> 2" by auto
  assume ins: "\<forall>w q. \<exists>results w'. executeSearch E w q = (Inr results, w')
                  \<and> \<not> validateSearchResults results"
  have "status (snd (snd (outcome E recursionLimit Query_parser w (initialState q)))) = Error
     \<and> length (filter (\<lambda>m. m = Search_node)
           (fst (outcome E recursionLimit Query_parser w (initialState q))))
         \<le> 3 - searchAttempts (initialState q)"
    by (rule insufficient_ends_in_error [OF ins])
      (simp_all add: initialState_def recursionLimit_def)
  then show "status ?fs = Error"
    and "length (filter (\<lambda>n. n = Search_node) (map st_node ?tr)) \<le> 3"
    using diff_le_self [of 3 "searchAttempts (initialState q)"]
    by (simp_all add: run_graph_outcome del: diff_le_self)
  assume llm: "\<forall>w q. \<exists>response w'.
                  llm_invoke E w (QUERY_ENHANCEMENT_PROMPT q) = (Inr response, w')"
  have lim: "recursionLimit = Suc (Suc (Suc (Suc (Suc (Suc 19)))))"
    by (simp add: recursionLimit_def)
  have zero: "searchAttempts (initialState q) = 0" by (simp add: initialState_def)
  from exhausted_outcome [OF ins llm zero, of 19 w]
  obtain fs where out: "outcome E recursionLimit Query_parser w (initialState q)
           = ([Query_parser, Search_node, Query_parser, Search_node, Query_parser, Search_node],
              True, fs)"
    and fs: "searchAttempts fs = 2"
    unfolding lim by blast
  from out show nodes: "map st_node ?tr
      = [Query_parser, Search_node, Query_parser, Search_node, Query_parser, Search_node]"
    by (simp add: run_graph_outcome)
  show "length (filter (\<lambda>n. n = Search_node) (map st_node ?tr)) = 3"
    by (simp only: nodes) simp
  from out fs show "searchAttempts ?fs = 2"
    by (simp add: run_graph_outcome)
qed

theorem searchAttempts_at_most_two_witness:
  "(\<forall>w q. \<exists>results w'. executeSearch never_enough_env w q = (Inr results, w')
                  \<and> \<not> validateSearchResults results)
   \<and> (\<forall>w q. \<exists>response w'. llm_invoke never_enough_env w (QUERY_ENHANCEMENT_PROMPT q) = (Inr response, w'))
   \<and> map st_node (fst (run_graph never_enough_env 0 (initialState ''X 1 to X 2'')))
       = [Query_parser, Search_node, Query_parser, Search_node, Query_parser, Search_node]
   \<and> status (final_state (initialState ''X 1 to X 2'')
        (fst (run_graph never_enough_env 0 (initialState ''X 1 to X 2'')))) = Error
   \<and> searchAttempts (final_state (initialState ''X 1 to X 2'')
        (fst (run_graph never_enough_env 0 (initialState ''X 1 to X 2'')))) = 2"
proof -
  have h1: "\<forall>w q. \<exists>results w'. executeSearch never_enough_env w q = (Inr results, w')
                  \<and> \<not> validateSearchResults results"
    by (simp add: executeSearch_def never_enough_env_def validateSearchResults_def)
  have h2: "\<forall>w q. \<exists>response w'. llm_invoke never_enough_env w (QUERY_ENHANCEMENT_PROMPT q) = (Inr response, w')"
    by (simp add: never_enough_env_def mock_env_def)
  from searchAttempts_at_most_two [of "''X 1 to X 2''" never_enough_env 0] h1 h2
  show ?thesis by blast
qed

section \<open>Terminal states\<close>

lemma final_drive_Suc:
  "final_state s (fst (drive E (Suc k) n w s))
     = (case next_node n (after E n w s) of
          None \<Rightarrow> after E n w s
        | Some n' \<Rightarrow> final_state (after E n w s)
                       (fst (drive E k n' (snd (run_node E n w s)) (after E n w s))))"
  by (subst drive_Suc)
    (simp add: Let_def final_state_Cons del: drive.simps split: option.splits, simp add: final_state_def)

lemma after_stop_settled:
  assumes "findings s = None" and "next_node n (after E n w s) = None"
  shows "settled (after E n w s)"
proof (cases n)
  case Query_parser
  with assms after_Query_parser [of E w s] show ?thesis by (auto simp: settled_def split: if_splits)
next
  case Search_node
  with assms after_Search_node [of E w s] show ?thesis by (auto simp: settled_def split: if_splits)
next
  case Relevance_filter
  with assms after_Relevance_filter [of E w s] show ?thesis by (auto simp: settled_def split: if_splits)
next
  case Deep_analysis
  with assms after_Deep_analysis [of E w s] show ?thesis by (auto simp: settled_def split: if_splits)
next
  case Synthesis
  with assms after_Synthesis [of E w s] show ?thesis by (auto simp: settled_def)
qed

lemma after_continue_findings:
  assumes "findings s = None" and "next_node n (after E n w s) = Some n'"
  shows "findings (after E n w s) = None"
proof (cases n)
  case Query_parser
  with assms after_Query_parser [of E w s] show ?thesis by simp
next
  case Search_node
  with assms after_Search_node [of E w s] show ?thesis by simp
next
  case Relevance_filter
  with assms after_Relevance_filter [of E w s] show ?thesis by simp
next
  case Deep_analysis
  with assms after_Deep_analysis [of E w s] show ?thesis by simp
next
  case Synthesis
  with assms show ?thesis by simp
qed

lemma drive_settles:
  "findings s = None \<Longrightarrow> steps_left n (searchAttempts s) \<le> k \<Longrightarrow>
     settled (final_state s (fst (drive E k n w s)))"
proof (induction k arbitrary: n w s)
  case 0
  with steps_left_pos [of n "searchAttempts s"] show ?case by simp
next
  case (Suc k)
  show ?case
  proof (cases "next_node n (after E n w s)")
    case None
    with after_stop_settled [OF Suc.prems(1) None] show ?thesis
      by (simp add: final_drive_Suc del: drive.simps)
  next
    case (Some n')
    from next_node_decreases [OF Some] Suc.prems(2)
    have le: "steps_left n' (searchAttempts (after E n w s)) \<le> k" by simp
    from Suc.IH [OF after_continue_findings [OF Suc.prems(1) Some] le] Some show ?thesis
      by (simp add: final_drive_Suc del: drive.simps)
  qed
qed

text \<open>
  C5. Every run from the initial state ends, and in the state \<open>graph.invoke\<close> returns:
  status complete implies that findings are present; status error implies that findings are
  absent and an error message is present; findings are present exactly when the status is
  complete; and there is no third terminal status.
\<close>

theorem terminal_state_report_iff_complete:
  "\<exists>fs w'. graph_invoke E w (initialState q) = (Inr fs, w')
     \<and> (status fs = Complete \<longrightarrow> findings fs \<noteq> None)
     \<and> (status fs = Error \<longrightarrow> findings fs = None \<and> error fs \<noteq> None)
     \<and> (findings fs \<noteq> None \<longleftrightarrow> status fs = Complete)
     \<and> (status fs = Complete \<or> status fs = Error)"
proof -
  let ?fs = "final_state (initialState q) (fst (run_graph E w (initialState q)))"
  have "settled ?fs"
    unfolding run_graph_def
    by (rule drive_settles) (simp_all add: initialState_def recursionLimit_def)
  moreover from drive_bounded [of Query_parser "initialState q" recursionLimit E w]
  have "fst (snd (run_graph E w (initialState q)))"
    by (simp add: run_graph_def initialState_def recursionLimit_def)
  then have "graph_invoke E w (initialState q)
      = (Inr ?fs, snd (snd (run_graph E w (initialState q))))"
    by (cases "run_graph E w (initialState q)") (simp add: graph_invoke_def)
  ultimately show ?thesis by (auto simp: settled_def)
qed

theorem terminal_state_report_iff_complete_witness:
  "(\<exists>fs w'. graph_invoke (mock_env 0) 0 (initialState ''X 1 to X 2'') = (Inr fs, w')
       \<and> status fs = Complete \<and> findings fs \<noteq> None)
   \<and> (\<exists>fs w'. graph_invoke (mock_env 3) 0 (initialState ''X 1 to X 2'') = (Inr fs, w')
       \<and> status fs = Error \<and> findings fs = None \<and> error fs \<noteq> None)"
proof -
  have a: "map_sum id status (fst (graph_invoke (mock_env 0) 0 (initialState ''X 1 to X 2'')))
      = Inr Complete"
    by code_simp
  have b: "map_sum id status (fst (graph_invoke (mock_env 3) 0 (initialState ''X 1 to X 2'')))
      = Inr Error"
    by code_simp
  from terminal_state_report_iff_complete [of "mock_env 0" 0 "''X 1 to X 2''"] a
    terminal_state_report_iff_complete [of "mock_env 3" 0 "''X 1 to X 2''"] b
  show ?thesis by auto
qed

section \<open>The retry suffix\<close>

lemma parseQuery_ignores_enhancedQuery:
  "parseQuery E w (s\<lparr>enhancedQuery := e\<rparr>) = parseQuery E w s"
  by (simp add: parseQuery_def split: prod.splits sum.splits)

lemma merge_partial_overwrites:
  "p_enhancedQuery u \<noteq> None \<Longrightarrow> merge_partial (s\<lparr>enhancedQuery := e\<rparr>) u = merge_partial s u"
  by (auto simp: merge_partial_def split: option.splits)

lemma parseQuery_shape:
  "(\<exists>m. fst (parseQuery E w s) = error_partial m) \<or> p_enhancedQuery (fst (parseQuery E w s)) \<noteq> None"
  by (auto simp: parseQuery_def Let_def split: prod.splits sum.splits)

lemma search_query_after_parse:
  assumes "llm_invoke E w (QUERY_ENHANCEMENT_PROMPT (query s)) = (Inr response, w')"
  shows "search_query (after E Query_parser w s)
           = (if trim response = [] then query s else trim response)"
  using assms
  by (simp add: after_def unchanged_def parseQuery_def Let_def search_query_def truthy_or_def)

lemma drive_ignores_enhancedQuery:
  "map st_node (fst (drive E k Query_parser w (s\<lparr>enhancedQuery := e\<rparr>)))
     = map st_node (fst (drive E k Query_parser w s))
   \<and> map st_partial (fst (drive E k Query_parser w (s\<lparr>enhancedQuery := e\<rparr>)))
     = map st_partial (fst (drive E k Query_parser w s))
   \<and> tl (fst (drive E k Query_parser w (s\<lparr>enhancedQuery := e\<rparr>)))
     = tl (fst (drive E k Query_parser w s))
   \<and> snd (drive E k Query_parser w (s\<lparr>enhancedQuery := e\<rparr>))
     = snd (drive E k Query_parser w s)"
proof (cases k)
  case 0
  then show ?thesis by simp
next
  case (Suc k')
  let ?u = "fst (parseQuery E w s)"
  from parseQuery_shape [of E w s] show ?thesis
  proof
    assume "\<exists>m. ?u = error_partial m"
    then obtain m where m: "?u = error_partial m" ..
    then have "status (after E Query_parser w (s\<lparr>enhancedQuery := e\<rparr>)) = Error"
      and "status (after E Query_parser w s) = Error"
      by (simp_all add: after_def unchanged_def parseQuery_ignores_enhancedQuery)
    then show ?thesis unfolding Suc
      by (subst (1 2 3 4 5 6 7 8) drive_Suc)
        (simp add: Let_def unchanged_def parseQuery_ignores_enhancedQuery del: drive.simps)
  next
    assume "p_enhancedQuery ?u \<noteq> None"
    then have "after E Query_parser w (s\<lparr>enhancedQuery := e\<rparr>) = after E Query_parser w s"
      by (simp add: after_def unchanged_def parseQuery_ignores_enhancedQuery
          merge_partial_overwrites)
    then show ?thesis unfolding Suc
      by (subst (1 2 3 4 5 6 7 8) drive_Suc)
        (simp add: Let_def unchanged_def parseQuery_ignores_enhancedQuery del: drive.simps)
  qed
qed

text \<open>
  C10. When the Search node loops back (its update sets the status to parsing_query), the
  update stores the searched text with the suffix appended in \<open>enhancedQuery\<close> and the edge
  leads to \<open>query_parser\<close>. That node computes its update from \<open>query\<close> alone: it sends
  the enhancement prompt for the original query and, when the LLM answers, overwrites
  \<open>enhancedQuery\<close> with the trimmed answer, which is then the text of the next search
  (or the original query, when the answer is blank). So whatever text the Search node left in
  \<open>enhancedQuery\<close>, the rest of the run executes the same nodes with the same updates,
  every step after the first is the same, states included, and the collaborators end in the
  same world: no later search call sees the suffix.
\<close>

theorem retry_suffix_never_reaches_search:
  assumes "search E w state = (update, w1)" and "p_status update = Some ParsingQuery"
  shows "p_enhancedQuery update
           = Some (search_query state @ '' official documentation breaking changes'')
       \<and> next_node Search_node (merge_partial state update) = Some Query_parser
       \<and> parseQuery E w1 (merge_partial state update)
           = (case llm_invoke E w1 (QUERY_ENHANCEMENT_PROMPT (query state)) of
                (Inr response, w2) \<Rightarrow>
                  (empty_partial\<lparr>p_enhancedQuery := Some (trim response), p_status := Some Searching,
                     p_messages := Some [HumanMessage (query state), AIMessage (trim response)]\<rparr>, w2)
              | (Inl msg, w2) \<Rightarrow> (error_partial (''Query parsing failed: '' @ msg), w2))
       \<and> (\<forall>response w2.
             llm_invoke E w1 (QUERY_ENHANCEMENT_PROMPT (query state)) = (Inr response, w2) \<longrightarrow>
             search_query (after E Query_parser w1 (merge_partial state update))
               = (if trim response = [] then query state else trim response))
       \<and> (\<forall>e k. map st_node (fst (drive E k Query_parser w1 ((merge_partial state update)\<lparr>enhancedQuery := e\<rparr>)))
                  = map st_node (fst (drive E k Query_parser w1 (merge_partial state update)))
              \<and> map st_partial (fst (drive E k Query_parser w1 ((merge_partial state update)\<lparr>enhancedQuery := e\<rparr>)))
                  = map st_partial (fst (drive E k Query_parser w1 (merge_partial state update)))
              \<and> tl (fst (drive E k Query_parser w1 ((merge_partial state update)\<lparr>enhancedQuery := e\<rparr>)))
                  = tl (fst (drive E k Query_parser w1 (merge_partial state update)))
              \<and> snd (drive E k Query_parser w1 ((merge_partial state update)\<lparr>enhancedQuery := e\<rparr>))
                  = snd (drive E k Query_parser w1 (merge_partial state update)))"
proof (intro conjI)
  from assms show "p_enhancedQuery update
           = Some (search_query state @ '' official documentation breaking changes'')"
    by (auto simp: search_def Let_def split: prod.splits sum.splits if_splits)
  from assms(2) show "next_node Search_node (merge_partial state update) = Some Query_parser"
    by simp
  from assms have "p_query update = None"
    by (auto simp: search_def Let_def split: prod.splits sum.splits if_splits)
  then show "parseQuery E w1 (merge_partial state update)
           = (case llm_invoke E w1 (QUERY_ENHANCEMENT_PROMPT (query state)) of
                (Inr response, w2) \<Rightarrow>
                  (empty_partial\<lparr>p_enhancedQuery := Some (trim response), p_status := Some Searching,
                     p_messages := Some [HumanMessage (query state), AIMessage (trim response)]\<rparr>, w2)
              | (Inl msg, w2) \<Rightarrow> (error_partial (''Query parsing failed: '' @ msg), w2))"
    by (simp add: parseQuery_def Let_def split: prod.splits sum.splits)
  from assms have noq: "p_query update = None"
    by (auto simp: search_def Let_def split: prod.splits sum.splits if_splits)
  show "\<forall>response w2.
      llm_invoke E w1 (QUERY_ENHANCEMENT_PROMPT (query state)) = (Inr response, w2) \<longrightarrow>
      search_query (after E Query_parser w1 (merge_partial state update))
        = (if trim response = [] then query state else trim response)"
  proof (intro allI impI)
    fix response w2
    assume "llm_invoke E w1 (QUERY_ENHANCEMENT_PROMPT (query state)) = (Inr response, w2)"
    with noq have "llm_invoke E w1 (QUERY_ENHANCEMENT_PROMPT (query (merge_partial state update)))
        = (Inr response, w2)" by simp
    from search_query_after_parse [OF this] noq
    show "search_query (after E Query_parser w1 (merge_partial state update))
        = (if trim response = [] then query state else trim response)" by simp
  qed
qed (simp_all add: drive_ignores_enhancedQuery)

theorem retry_suffix_never_reaches_search_witness:
  "search (mock_env 1) 0 searching_state = (retry_partial, 1)
   \<and> p_status retry_partial = Some ParsingQuery
   \<and> p_enhancedQuery retry_partial = Some ''reply official documentation breaking changes''
   \<and> next_node Search_node (merge_partial searching_state retry_partial) = Some Query_parser
   \<and> fst (parseQuery (mock_env 1) 1 (merge_partial searching_state retry_partial))
       = empty_partial\<lparr>p_enhancedQuery := Some ''reply'', p_status := Some Searching,
           p_messages := Some [HumanMessage ''X 1 to X 2'', AIMessage ''reply'']\<rparr>
   \<and> search_query (after (mock_env 1) Query_parser 1 (merge_partial searching_state retry_partial))
       = ''reply''
   \<and> snd (drive (mock_env 1) 25 Query_parser 1
          ((merge_partial searching_state retry_partial)\<lparr>enhancedQuery := Some ''reply''\<rparr>))
       = snd (drive (mock_env 1) 25 Query_parser 1 (merge_partial searching_state retry_partial))"
proof -
  have h1: "search (mock_env 1) 0 searching_state = (retry_partial, 1)" by code_simp
  have h2: "p_status retry_partial = Some ParsingQuery" by (simp add: retry_partial_def)
  have q: "query searching_state = ''X 1 to X 2''"
    by (simp add: searching_state_def initialState_def)
  have llm: "llm_invoke (mock_env 1) 1 (QUERY_ENHANCEMENT_PROMPT ''X 1 to X 2'') = (Inr ''reply'', 1)"
    by (simp add: mock_env_def)
  have t: "trim ''reply'' = ''reply''" by code_simp
  have sq: "search_query searching_state = ''reply''" by code_simp
  from retry_suffix_never_reaches_search [OF h1 h2] h1 h2 q llm t sq show ?thesis
    by simp
qed

section \<open>The two entry points\<close>

text \<open>
  What the two entry points share: the collaborators end in the same world,
  \<open>onUpdate\<close> is called once per node execution with the update of that node, both raise
  on the same runs with the same message, and on success the object the streaming one returns
  has the final status and findings.
\<close>

lemma run_node_partial:
  "p_status (fst (fst (run_node E n w s))) \<noteq> None
   \<and> (p_status (fst (fst (run_node E n w s))) = Some Error \<longrightarrow>
        p_error (fst (fst (run_node E n w s))) \<noteq> None)
   \<and> (p_status (fst (fst (run_node E n w s))) = Some Complete \<longrightarrow>
        p_findings (fst (fst (run_node E n w s))) \<noteq> None)"
proof (cases n)
  case Query_parser
  then show ?thesis
    by (simp add: unchanged_def parseQuery_def Let_def split: prod.splits sum.splits)
next
  case Search_node
  then show ?thesis
    by (simp add: unchanged_def search_def Let_def split: prod.splits sum.splits)
next
  case Relevance_filter
  then show ?thesis
    by (simp add: filterRelevance_def filter_catch_def filter_selected_def Let_def
        split: prod.splits sum.splits option.splits json.splits)
next
  case Deep_analysis
  then show ?thesis
    by (simp add: unchanged_def analyzeResults_def Let_def
        split: prod.splits sum.splits option.splits)
next
  case Synthesis
  then show ?thesis
    by (simp add: unchanged_def synthesizeFindings_def Let_def
        split: prod.splits sum.splits option.splits parsed_synthesis.splits)
qed

lemma step_consistent:
  "consistent \<lparr>st_node = n, st_partial = fst (fst (run_node E n w s)), st_state = after E n w s\<rparr>"
  using run_node_partial [of E n w s]
  by (auto simp: consistent_def after_def)

lemma drive_consistent:
  "\<forall>stp \<in> set (fst (drive E k n w s)). consistent stp"
proof (induction k arbitrary: n w s)
  case 0
  then show ?case by simp
next
  case (Suc k)
  show ?case
  proof (cases "next_node n (after E n w s)")
    case None
    with step_consistent [of n E w s] show ?thesis
      by (simp add: drive_Suc Let_def del: drive.simps)
  next
    case (Some n')
    with step_consistent [of n E w s] Suc.IH [of n' "snd (run_node E n w s)" "after E n w s"]
    show ?thesis
      by (simp add: drive_Suc Let_def del: drive.simps)
  qed
qed

lemma streaming_agrees_on_outcome:
  "snd (executeResearchStreaming E w q) = snd (executeResearch E w q)
   \<and> snd (fst (executeResearchStreaming E w q))
       = map st_partial (fst (run_graph E w (initialState q)))
   \<and> (case fst (executeResearch E w q) of
         Inl msg \<Rightarrow> fst (fst (executeResearchStreaming E w q)) = Inl msg
       | Inr fs \<Rightarrow> (\<exists>u. fst (fst (executeResearchStreaming E w q)) = Inr u
                      \<and> p_status u = Some (status fs) \<and> p_findings u = findings fs))"
proof -
  obtain tr fin w' where run: "run_graph E w (initialState q) = (tr, fin, w')"
    by (cases "run_graph E w (initialState q)") auto
  from drive_bounded [of Query_parser "initialState q" recursionLimit E w] run
  have fin: "fin" and ne: "tr \<noteq> []"
    by (simp_all add: run_graph_def initialState_def recursionLimit_def)
  from drive_consistent [of E recursionLimit Query_parser w "initialState q"] run ne
  have c: "consistent (last tr)" by (simp add: run_graph_def)
  let ?fs = "st_state (last tr)"
  let ?u = "st_partial (last tr)"
  from drive_settles [of "initialState q" Query_parser recursionLimit E w] run ne
  have s: "settled ?fs"
    by (simp add: run_graph_def initialState_def recursionLimit_def final_state_def)
  have inv: "graph_invoke E w (initialState q) = (Inr ?fs, w')"
    using run fin ne by (simp add: graph_invoke_def final_state_def)
  have str: "graph_stream E w (initialState q)
      = ((map (\<lambda>s. (st_node s, st_partial s)) tr, None), w')"
    using run fin by (simp add: graph_stream_def)
  have lastu: "last (map snd (map (\<lambda>s. (st_node s, st_partial s)) tr)) = ?u"
    using ne by (simp add: last_map comp_def)
  show ?thesis
  proof (cases "status ?fs = Error")
    case True
    with c have "p_status ?u = Some Error" and "p_error ?u = error ?fs"
      by (simp_all add: consistent_def)
    with True inv str ne lastu run show ?thesis
      by (simp add: executeResearch_def executeResearchStreaming_def Let_def comp_def)
  next
    case False
    with s have comp: "status ?fs = Complete" by (auto simp: settled_def)
    with c have "p_status ?u = Some Complete" and "p_findings ?u = findings ?fs"
      by (simp_all add: consistent_def)
    with comp inv str ne lastu run show ?thesis
      by (simp add: executeResearch_def executeResearchStreaming_def Let_def comp_def)
  qed
qed

text \<open>
  C1. The claim is that \<open>executeResearch\<close> and \<open>executeResearchStreaming\<close> return the same
  final state and that \<open>onUpdate\<close> receives the state after each node. On a run that
  succeeds, \<open>executeResearch\<close> returns the merged state, with \<open>query\<close> and
  \<open>enhancedQuery\<close> set, while \<open>executeResearchStreaming\<close> returns the update of the last
  node, in which neither key is present; and \<open>onUpdate\<close> receives the five updates, none
  of which holds \<open>query\<close>, which every state after a node does.
\<close>

theorem streaming_returns_last_partial:
  "map_sum id query (fst (executeResearch (mock_env 0) 0 ''X 1 to X 2'')) = Inr ''X 1 to X 2''
   \<and> map_sum id p_query (fst (fst (executeResearchStreaming (mock_env 0) 0 ''X 1 to X 2''))) = Inr None
   \<and> map_sum id enhancedQuery (fst (executeResearch (mock_env 0) 0 ''X 1 to X 2'')) = Inr (Some ''reply'')
   \<and> map_sum id p_enhancedQuery (fst (fst (executeResearchStreaming (mock_env 0) 0 ''X 1 to X 2''))) = Inr None
   \<and> map_sum id as_object (fst (executeResearch (mock_env 0) 0 ''X 1 to X 2''))
       \<noteq> fst (fst (executeResearchStreaming (mock_env 0) 0 ''X 1 to X 2''))
   \<and> map p_query (snd (fst (executeResearchStreaming (mock_env 0) 0 ''X 1 to X 2'')))
       = [None, None, None, None, None]
   \<and> map (\<lambda>stp. p_query (as_object (st_state stp)))
        (fst (run_graph (mock_env 0) 0 (initialState ''X 1 to X 2'')))
       = [Some ''X 1 to X 2'', Some ''X 1 to X 2'', Some ''X 1 to X 2'', Some ''X 1 to X 2'',
          Some ''X 1 to X 2'']"
  by code_simp

end
